theory Spec2Isabelle
  imports Complex_Main "HOL-Library.Multiset" "HOL-Library.Word"
begin

section \<open>Expense settlement (EconomyPage.tsx)\<close>

text \<open>
  Amounts are integer minor units (ore). The page computes the equal share as
  \<open>totalOre / members.length\<close> and rounds \<open>paid - share\<close> with \<open>Math.round\<close>; the model
  carries that quotient as an exact rational, and \<open>Math.round\<close> as rounding to the
  nearest integer with ties towards plus infinity.
\<close>

subsection \<open>Strings of the host language\<close>

text \<open>
  A string of the page is a sequence of UTF-16 code units. \<open>js\<close> writes such a string
  from its ASCII spelling. \<open>String.prototype.trim\<close> removes, at both ends, the white
  space and line terminator code units of the language: TAB, LF, VT, FF, CR, SP, NBSP,
  U+1680, U+2000 to U+200A, U+2028, U+2029, U+202F, U+205F, U+3000 and U+FEFF.
  \<open>slice(0, 6)\<close> keeps the first six code units.
\<close>

type_synonym jstring = "16 word list"

definition js :: "string \<Rightarrow> jstring" where
  "js s = map of_char s"

definition is_space :: "16 word \<Rightarrow> bool" where
  "is_space c =
     (c \<in> set [0x9, 0xA, 0xB, 0xC, 0xD, 0x20, 0xA0, 0x1680, 0x2000, 0x2001, 0x2002, 0x2003,
                0x2004, 0x2005, 0x2006, 0x2007, 0x2008, 0x2009, 0x200A, 0x2028, 0x2029,
                0x202F, 0x205F, 0x3000, 0xFEFF])"

definition trim :: "jstring \<Rightarrow> jstring" where
  "trim s = rev (dropWhile is_space (rev (dropWhile is_space s)))"

record Member =
  user_id :: jstring
  role :: jstring
  display_name :: jstring

record Expense =
  e_id :: jstring
  household_id :: jstring
  paid_by :: jstring
  title :: jstring
  amount_ore :: int
  created_by :: jstring
  created_at :: jstring

record Balance =
  b_user_id :: jstring
  b_display_name :: jstring
  balance_ore :: int

record TransferLine =
  from_name :: jstring
  to_name :: jstring
  line_amount_ore :: int

subsection \<open>Balances\<close>

definition roundOre :: "rat \<Rightarrow> int" where
  "roundOre n = \<lfloor>n + 1 / 2\<rfloor>"

definition totalOre :: "Expense list \<Rightarrow> int" where
  "totalOre expenses = foldl (\<lambda>sum e. sum + amount_ore e) 0 expenses"

definition totalsByUser :: "Expense list \<Rightarrow> (jstring \<rightharpoonup> int)" where
  "totalsByUser expenses =
     foldl (\<lambda>m e. m(paid_by e \<mapsto> (case m (paid_by e) of None \<Rightarrow> 0 | Some v \<Rightarrow> v) + amount_ore e))
       Map.empty expenses"

definition shown_name :: "Member \<Rightarrow> jstring" where
  "shown_name m =
     (if trim (display_name m) \<noteq> [] then trim (display_name m) else take 6 (user_id m))"

definition balances :: "Member list \<Rightarrow> Expense list \<Rightarrow> Balance list" where
  "balances members expenses =
     (if length members = 0 then []
      else
        let share = of_int (totalOre expenses) / of_nat (length members) :: rat
        in map (\<lambda>m.
              let paid = (case totalsByUser expenses (user_id m) of None \<Rightarrow> 0 | Some v \<Rightarrow> v)
              in \<lparr>b_user_id = user_id m,
                  b_display_name = shown_name m,
                  balance_ore = roundOre (of_int paid - share)\<rparr>) members)"

subsection \<open>The transfer plan\<close>

text \<open>
  \<open>Array.prototype.sort\<close> is a stable sort; with the comparator
  \<open>(a, b) => b.balance_ore - a.balance_ore\<close> it orders by descending balance, which is
  \<open>sort_key\<close> (a stable insertion sort) on the negated balance. The spread
  \<open>{...b}\<close> copies the record, so the loop works on lists of its own; the loop state
  holds those two lists, the two indices and the lines pushed so far.
\<close>

record loop_state =
  debtors :: "Balance list"
  creditors :: "Balance list"
  i :: nat
  j :: nat
  lines :: "TransferLine list"

definition loop_cond :: "loop_state \<Rightarrow> bool" where
  "loop_cond st = (i st < length (debtors st) \<and> j st < length (creditors st))"

definition loop_body :: "loop_state \<Rightarrow> loop_state" where
  "loop_body st =
     (let d = debtors st ! i st;
          c = creditors st ! j st;
          x = min (balance_ore d) (balance_ore c);
          lines' = (if x > 0
                    then lines st @ [\<lparr>from_name = b_display_name d, to_name = b_display_name c,
                                       line_amount_ore = x\<rparr>]
                    else lines st);
          d' = d\<lparr>balance_ore := balance_ore d - x\<rparr>;
          c' = c\<lparr>balance_ore := balance_ore c - x\<rparr>
      in \<lparr>debtors = (debtors st)[i st := d'],
          creditors = (creditors st)[j st := c'],
          i = (if balance_ore d' \<le> 0 then i st + 1 else i st),
          j = (if balance_ore c' \<le> 0 then j st + 1 else j st),
          lines = lines'\<rparr>)"

function settle_loop :: "loop_state \<Rightarrow> TransferLine list" where
  "settle_loop st = (if loop_cond st then settle_loop (loop_body st) else lines st)"
  by pat_completeness auto
termination
  by (relation "measure (\<lambda>st. (length (debtors st) - i st) + (length (creditors st) - j st))")
     (auto simp: loop_cond_def loop_body_def Let_def min_def)

declare settle_loop.simps [simp del]

definition creditors_of :: "Balance list \<Rightarrow> Balance list" where
  "creditors_of bs =
     sort_key (\<lambda>b. - balance_ore b) (map (\<lambda>b. b) (filter (\<lambda>b. balance_ore b > 0) bs))"

definition debtors_of :: "Balance list \<Rightarrow> Balance list" where
  "debtors_of bs =
     sort_key (\<lambda>b. - balance_ore b)
       (map (\<lambda>b. b\<lparr>balance_ore := - balance_ore b\<rparr>) (filter (\<lambda>b. balance_ore b < 0) bs))"

definition computeSettlements :: "Balance list \<Rightarrow> TransferLine list" where
  "computeSettlements bs =
     settle_loop \<lparr>debtors = debtors_of bs, creditors = creditors_of bs, i = 0, j = 0, lines = []\<rparr>"

text \<open>
  The same matching in the words of the design: take the earliest unresolved debtor and
  creditor, transfer the smaller of the two remaining amounts, emit a line only when it is
  positive, and advance past a party whose remaining amount has reached zero.
\<close>

function greedy_match :: "Balance list \<Rightarrow> Balance list \<Rightarrow> TransferLine list" where
  "greedy_match [] cs = []"
| "greedy_match (d # ds) [] = []"
| "greedy_match (d # ds) (c # cs) =
     (let x = min (balance_ore d) (balance_ore c)
      in (if x > 0
          then [\<lparr>from_name = b_display_name d, to_name = b_display_name c, line_amount_ore = x\<rparr>]
          else []) @
         greedy_match
           (if balance_ore d - x = 0 then ds else d\<lparr>balance_ore := balance_ore d - x\<rparr> # ds)
           (if balance_ore c - x = 0 then cs else c\<lparr>balance_ore := balance_ore c - x\<rparr> # cs))"
  by pat_completeness auto
termination
  by (relation "measure (\<lambda>(ds, cs). length ds + length cs)") (auto simp: min_def)

definition stable_desc_sort_of :: "Balance list \<Rightarrow> Balance list \<Rightarrow> bool" where
  "stable_desc_sort_of xs ys =
     (mset ys = mset xs \<and>
      sorted_wrt (\<lambda>a b. balance_ore a \<ge> balance_ore b) ys \<and>
      (\<forall>k. filter (\<lambda>b. balance_ore b = k) ys = filter (\<lambda>b. balance_ore b = k) xs))"

section \<open>Optimistic mutations (ShoppingPage.tsx)\<close>

text \<open>
  The page keeps its collections in component state. An asynchronous handler is split at
  its \<open>await\<close>: the part that runs synchronously when the handler is called, and the
  continuation that runs when the remote store has answered. A state updater of the
  form \<open>setX(prev => ...)\<close> acts on the state at the moment it runs; \<open>setX(v)\<close> stores
  the value the handler captured. Requests sent to the remote store are appended to
  \<open>remote_log\<close>; armed browser timers are kept in \<open>pending\<close>.
\<close>

record ShoppingItem =
  s_id :: jstring
  s_text :: jstring
  checked :: bool

record PantryItem =
  p_id :: jstring
  p_name :: jstring
  qty :: "rat option"
  p_unit :: "jstring option"

text \<open>A \<open>Partial<PantryItem>\<close>: every field may be absent.\<close>

record PantryPatch =
  patch_id :: "jstring option"
  patch_name :: "jstring option"
  patch_qty :: "rat option option"
  patch_unit :: "jstring option option"

datatype 'a reply = Ok 'a | Failed jstring

datatype request =
    InsertShopping jstring jstring jstring
  | UpdateShoppingChecked jstring bool
  | DeleteShopping jstring
  | SelectShopping jstring
  | UpdatePantry jstring PantryPatch

record page =
  householdId :: "jstring option"
  userId :: "jstring option"
  shopping :: "ShoppingItem list"
  shoppingText :: jstring
  pantry :: "PantryItem list"
  msg :: "jstring option"
  pantryTimers :: "jstring \<rightharpoonup> nat"
  pending :: "(nat \<times> jstring \<times> PantryPatch) list"
  next_handle :: nat
  remote_log :: "request list"

definition apply_patch :: "PantryItem \<Rightarrow> PantryPatch \<Rightarrow> PantryItem" where
  "apply_patch x patch =
     \<lparr>p_id = (case patch_id patch of None \<Rightarrow> p_id x | Some v \<Rightarrow> v),
      p_name = (case patch_name patch of None \<Rightarrow> p_name x | Some v \<Rightarrow> v),
      qty = (case patch_qty patch of None \<Rightarrow> qty x | Some v \<Rightarrow> v),
      p_unit = (case patch_unit patch of None \<Rightarrow> p_unit x | Some v \<Rightarrow> v)\<rparr>"

definition loadShopping :: "jstring \<Rightarrow> page \<Rightarrow> page" where
  "loadShopping hid s = s\<lparr>remote_log := remote_log s @ [SelectShopping hid]\<rparr>"

definition loadShopping_done :: "ShoppingItem list option reply \<Rightarrow> page \<Rightarrow> page" where
  "loadShopping_done r s =
     (case r of
        Failed e \<Rightarrow> s\<lparr>msg := Some e\<rparr>
      | Ok d \<Rightarrow> s\<lparr>shopping := (case d of None \<Rightarrow> [] | Some rows \<Rightarrow> rows)\<rparr>)"

text \<open>
  \<open>addShopping\<close>: the argument is the value of \<open>crypto.randomUUID()\<close>; the result
  carries the temporary id when an insert was sent, and nothing when a guard returned
  (the guards \<open>!t\<close>, \<open>!householdId\<close>, \<open>!userId\<close> hold for an empty jstring as well
  as for \<open>null\<close>).
\<close>

definition addShopping :: "jstring \<Rightarrow> page \<Rightarrow> page \<times> jstring option" where
  "addShopping uuid s =
     (let s1 = s\<lparr>msg := None\<rparr>;
          t = trim (shoppingText s1)
      in case (householdId s1, userId s1) of
           (Some hid, Some uid) \<Rightarrow>
             if t = [] \<or> hid = [] \<or> uid = [] then (s1, None)
             else
               let tempId = (js ''temp-'') @ uuid
               in (s1\<lparr>shopping := shopping s1 @ [\<lparr>s_id = tempId, s_text = t, checked = False\<rparr>],
                      shoppingText := [],
                      remote_log := remote_log s1 @ [InsertShopping hid t uid]\<rparr>,
                   Some tempId)
         | _ \<Rightarrow> (s1, None))"

definition addShopping_done :: "jstring \<Rightarrow> ShoppingItem reply \<Rightarrow> page \<Rightarrow> page" where
  "addShopping_done tempId r s =
     (case r of
        Failed e \<Rightarrow> s\<lparr>msg := Some e, shopping := filter (\<lambda>x. s_id x \<noteq> tempId) (shopping s)\<rparr>
      | Ok d \<Rightarrow> s\<lparr>shopping := map (\<lambda>x. if s_id x = tempId then d else x) (shopping s)\<rparr>)"

definition toggleShopping :: "ShoppingItem \<Rightarrow> page \<Rightarrow> page" where
  "toggleShopping item s =
     s\<lparr>msg := None,
       shopping := map (\<lambda>x. if s_id x = s_id item then x\<lparr>checked := \<not> checked x\<rparr> else x) (shopping s),
       remote_log := remote_log s @ [UpdateShoppingChecked (s_id item) (\<not> checked item)]\<rparr>"

definition toggleShopping_done :: "ShoppingItem \<Rightarrow> unit reply \<Rightarrow> page \<Rightarrow> page" where
  "toggleShopping_done item r s =
     (case r of
        Failed e \<Rightarrow>
          s\<lparr>msg := Some e,
            shopping := map (\<lambda>x. if s_id x = s_id item then x\<lparr>checked := checked item\<rparr> else x)
                          (shopping s)\<rparr>
      | Ok _ \<Rightarrow> s)"

text \<open>\<open>removeShopping\<close> returns the snapshot its continuation holds on to.\<close>

definition removeShopping :: "ShoppingItem \<Rightarrow> page \<Rightarrow> page \<times> ShoppingItem list" where
  "removeShopping item s =
     (let snapshot = shopping s
      in (s\<lparr>msg := None,
             shopping := filter (\<lambda>x. s_id x \<noteq> s_id item) (shopping s),
             remote_log := remote_log s @ [DeleteShopping (s_id item)]\<rparr>,
          snapshot))"

definition removeShopping_done :: "ShoppingItem list \<Rightarrow> unit reply \<Rightarrow> page \<Rightarrow> page" where
  "removeShopping_done snapshot r s =
     (case r of
        Failed e \<Rightarrow> s\<lparr>msg := Some e, shopping := snapshot\<rparr>
      | Ok _ \<Rightarrow> s)"

subsection \<open>Debounced pantry edits\<close>

text \<open>
  \<open>window.setTimeout\<close> hands out handles from \<open>next_handle\<close>; \<open>window.clearTimeout\<close>
  removes the timer with that handle from \<open>pending\<close>. The callback of a timer sends
  the patch it was armed with.
\<close>

definition clearTimeout :: "nat \<Rightarrow> page \<Rightarrow> page" where
  "clearTimeout h s = s\<lparr>pending := filter (\<lambda>t. fst t \<noteq> h) (pending s)\<rparr>"

definition setTimeout :: "jstring \<Rightarrow> PantryPatch \<Rightarrow> page \<Rightarrow> nat \<times> page" where
  "setTimeout k patch s =
     (next_handle s,
      s\<lparr>pending := pending s @ [(next_handle s, k, patch)], next_handle := next_handle s + 1\<rparr>)"

definition schedulePantryUpdate :: "jstring \<Rightarrow> PantryPatch \<Rightarrow> page \<Rightarrow> page" where
  "schedulePantryUpdate k patch s =
     (let s1 = s\<lparr>pantry := map (\<lambda>x. if p_id x = k then apply_patch x patch else x) (pantry s)\<rparr>;
          s2 = (case pantryTimers s1 k of
                  None \<Rightarrow> s1
                | Some prevTimer \<Rightarrow> if prevTimer \<noteq> 0 then clearTimeout prevTimer s1 else s1);
          (h, s3) = setTimeout k patch s2
      in s3\<lparr>pantryTimers := (pantryTimers s3)(k \<mapsto> h)\<rparr>)"

text \<open>A timer that is still armed fires: its callback sends the update.\<close>

definition timer_fires :: "nat \<Rightarrow> page \<Rightarrow> page" where
  "timer_fires h s =
     (case filter (\<lambda>t. fst t = h) (pending s) of
        [] \<Rightarrow> s
      | (_, k, patch) # _ \<Rightarrow>
          s\<lparr>pending := filter (\<lambda>t. fst t \<noteq> h) (pending s),
            remote_log := remote_log s @ [UpdatePantry k patch]\<rparr>)"

definition pantryUpdate_done :: "unit reply \<Rightarrow> page \<Rightarrow> page" where
  "pantryUpdate_done r s = (case r of Failed e \<Rightarrow> s\<lparr>msg := Some e\<rparr> | Ok _ \<Rightarrow> s)"



text \<open>The state of the page when the component is mounted, before anything is loaded.\<close>

definition initial_page :: page where
  "initial_page =
     \<lparr>householdId = None, userId = None, shopping = [], shoppingText = [], pantry = [],
      msg = None, pantryTimers = Map.empty, pending = [], next_handle = 1, remote_log = []\<rparr>"




section \<open>The expense collection (EconomyPage.tsx)\<close>

datatype eco_request =
    InsertExpense jstring jstring jstring int jstring
  | DeleteExpense jstring
  | SelectExpenses jstring

record economy =
  eco_householdId :: "jstring option"
  eco_userId :: "jstring option"
  members :: "Member list"
  expenses :: "Expense list"
  eco_title :: jstring
  amountKr :: jstring
  eco_msg :: "jstring option"
  eco_log :: "eco_request list"

definition loadExpenses :: "jstring \<Rightarrow> economy \<Rightarrow> economy" where
  "loadExpenses hid s = s\<lparr>eco_log := eco_log s @ [SelectExpenses hid]\<rparr>"

text \<open>\<open>loadExpenses\<close> throws on a failed read: the left summand is the thrown message.\<close>

definition loadExpenses_done :: "Expense list option reply \<Rightarrow> economy \<Rightarrow> jstring + economy" where
  "loadExpenses_done r s =
     (case r of
        Failed e \<Rightarrow> Inl e
      | Ok d \<Rightarrow> Inr (s\<lparr>expenses := (case d of None \<Rightarrow> [] | Some rows \<Rightarrow> rows)\<rparr>))"




definition removeExpense :: "Expense \<Rightarrow> economy \<Rightarrow> economy \<times> Expense list" where
  "removeExpense e s =
     (let snapshot = expenses s
      in (s\<lparr>eco_msg := None,
             expenses := filter (\<lambda>x. e_id x \<noteq> e_id e) (expenses s),
             eco_log := eco_log s @ [DeleteExpense (e_id e)]\<rparr>,
          snapshot))"

definition removeExpense_done :: "Expense list \<Rightarrow> unit reply \<Rightarrow> economy \<Rightarrow> economy" where
  "removeExpense_done snapshot r s =
     (case r of
        Failed e \<Rightarrow> s\<lparr>eco_msg := Some e, expenses := snapshot\<rparr>
      | Ok _ \<Rightarrow> s)"

section \<open>The transfer plan on a store of objects and arrays\<close>

text \<open>
  \<open>computeSettlements\<close> writes to the objects it matches (\<open>d.balance_ore -= x\<close>) and
  sorts arrays in place. To see what that does to its argument, the same code is run on
  an explicit store: objects and arrays live at addresses (their indices in the store),
  an array holds the addresses of its elements, \<open>filter\<close> and \<open>map\<close> allocate a new
  array, the spread \<open>{...b}\<close> allocates a new object, and \<open>sort\<close> reorders the array it
  is called on.
\<close>

record heap =
  objs :: "Balance list"
  arrs :: "nat list list"

definition arr_filter :: "(Balance \<Rightarrow> bool) \<Rightarrow> nat \<Rightarrow> heap \<Rightarrow> nat \<times> heap" where
  "arr_filter P a h =
     (length (arrs h), h\<lparr>arrs := arrs h @ [filter (\<lambda>r. P (objs h ! r)) (arrs h ! a)]\<rparr>)"

definition arr_map :: "(Balance \<Rightarrow> Balance) \<Rightarrow> nat \<Rightarrow> heap \<Rightarrow> nat \<times> heap" where
  "arr_map f a h =
     (let src = arrs h ! a; n = length (objs h)
      in (length (arrs h),
          h\<lparr>objs := objs h @ map (\<lambda>r. f (objs h ! r)) src,
            arrs := arrs h @ [[n ..< n + length src]]\<rparr>))"

definition arr_sort_desc :: "nat \<Rightarrow> heap \<Rightarrow> nat \<times> heap" where
  "arr_sort_desc a h =
     (a, h\<lparr>arrs := (arrs h)[a := sort_key (\<lambda>r. - balance_ore (objs h ! r)) (arrs h ! a)]\<rparr>)"

record hloop_state =
  hp :: heap
  hdebtors :: nat
  hcreditors :: nat
  hi :: nat
  hj :: nat
  hlines :: "TransferLine list"

definition hloop_cond :: "hloop_state \<Rightarrow> bool" where
  "hloop_cond st =
     (hi st < length (arrs (hp st) ! hdebtors st) \<and> hj st < length (arrs (hp st) ! hcreditors st))"

definition sub_balance :: "nat \<Rightarrow> int \<Rightarrow> heap \<Rightarrow> heap" where
  "sub_balance r x h =
     h\<lparr>objs := (objs h)[r := (objs h ! r)\<lparr>balance_ore := balance_ore (objs h ! r) - x\<rparr>]\<rparr>"

definition hloop_body :: "hloop_state \<Rightarrow> hloop_state" where
  "hloop_body st =
     (let h = hp st;
          d = arrs h ! hdebtors st ! hi st;
          c = arrs h ! hcreditors st ! hj st;
          x = min (balance_ore (objs h ! d)) (balance_ore (objs h ! c));
          lines' = (if x > 0
                    then hlines st @ [\<lparr>from_name = b_display_name (objs h ! d),
                                        to_name = b_display_name (objs h ! c),
                                        line_amount_ore = x\<rparr>]
                    else hlines st);
          h1 = sub_balance d x h;
          h2 = sub_balance c x h1
      in \<lparr>hp = h2,
          hdebtors = hdebtors st,
          hcreditors = hcreditors st,
          hi = (if balance_ore (objs h2 ! d) \<le> 0 then hi st + 1 else hi st),
          hj = (if balance_ore (objs h2 ! c) \<le> 0 then hj st + 1 else hj st),
          hlines = lines'\<rparr>)"

partial_function (option) hsettle_loop :: "hloop_state \<Rightarrow> (TransferLine list \<times> heap) option" where
  "hsettle_loop st =
     (if hloop_cond st then hsettle_loop (hloop_body st) else Some (hlines st, hp st))"

declare hsettle_loop.simps [code]

definition computeSettlements_heap :: "nat \<Rightarrow> heap \<Rightarrow> (TransferLine list \<times> heap) option" where
  "computeSettlements_heap a h =
     (let (f1, h1) = arr_filter (\<lambda>b. balance_ore b > 0) a h;
          (m1, h2) = arr_map (\<lambda>b. b) f1 h1;
          (cs, h3) = arr_sort_desc m1 h2;
          (f2, h4) = arr_filter (\<lambda>b. balance_ore b < 0) a h3;
          (m2, h5) = arr_map (\<lambda>b. b\<lparr>balance_ore := - balance_ore b\<rparr>) f2 h4;
          (ds, h6) = arr_sort_desc m2 h5
      in hsettle_loop \<lparr>hp = h6, hdebtors = ds, hcreditors = cs, hi = 0, hj = 0, hlines = []\<rparr>)"

definition valid_array :: "nat \<Rightarrow> heap \<Rightarrow> bool" where
  "valid_array a h = (a < length (arrs h) \<and> list_all (\<lambda>r. r < length (objs h)) (arrs h ! a))"

text \<open>
  How a state of the loop on the store is read as a state of the loop on values: the two
  arrays hold distinct addresses of objects allocated after the store \<open>h0\<close> the
  computation started from, the lists of the value state are the objects at those
  addresses, and the part of the store that existed in \<open>h0\<close> is as it was.
\<close>

definition heap_rel :: "heap \<Rightarrow> hloop_state \<Rightarrow> loop_state \<Rightarrow> bool" where
  "heap_rel h0 st ast =
     (take (length (objs h0)) (objs (hp st)) = objs h0 \<and>
      take (length (arrs h0)) (arrs (hp st)) = arrs h0 \<and>
      distinct (arrs (hp st) ! hdebtors st @ arrs (hp st) ! hcreditors st) \<and>
      list_all (\<lambda>r. length (objs h0) \<le> r \<and> r < length (objs (hp st)))
        (arrs (hp st) ! hdebtors st @ arrs (hp st) ! hcreditors st) \<and>
      debtors ast = map ((!) (objs (hp st))) (arrs (hp st) ! hdebtors st) \<and>
      creditors ast = map ((!) (objs (hp st))) (arrs (hp st) ! hcreditors st) \<and>
      i ast = hi st \<and> j ast = hj st \<and> lines ast = hlines st)"

section \<open>Strings spelled in ASCII\<close>

lemma unat_of_char: "unat (of_char c :: 16 word) = of_char c"
proof -
  have "(of_char c :: nat) < 256"
    using of_char_mod_256 [of c, where ?'a = nat] by (metis mod_less_divisor zero_less_numeral)
  then have "(of_char c :: nat) < 2 ^ 16" by (rule less_trans) simp
  moreover have "(of_char c :: 16 word) = of_nat (of_char c)" by (simp add: of_nat_of_char)
  ultimately show ?thesis by (simp add: unat_of_nat take_bit_nat_eq_self)
qed

lemma of_char_word_eq_iff: "(of_char c :: 16 word) = of_char d \<longleftrightarrow> c = d"
proof
  assume "(of_char c :: 16 word) = of_char d"
  then have "unat (of_char c :: 16 word) = unat (of_char d :: 16 word)" by simp
  then have "(of_char c :: nat) = of_char d" by (simp only: unat_of_char)
  then show "c = d" by simp
qed simp

lemma js_eq_iff [simp]: "js a = js b \<longleftrightarrow> a = b"
proof -
  have "inj (of_char :: char \<Rightarrow> 16 word)" by (rule injI) (simp add: of_char_word_eq_iff)
  then show ?thesis unfolding js_def by (simp add: inj_map_eq_map)
qed

lemma js_Nil_iff [simp]: "js a = [] \<longleftrightarrow> a = []" "[] = js a \<longleftrightarrow> a = []"
  by (auto simp: js_def)

lemma js_append [simp]: "js a @ js b = js (a @ b)"
  by (simp add: js_def)

section \<open>Properties of the settlement\<close>

subsection \<open>The loop is the greedy matching\<close>

lemma settle_loop_greedy:
  "settle_loop st = lines st @ greedy_match (drop (i st) (debtors st)) (drop (j st) (creditors st))"
proof (induction st rule: settle_loop.induct)
  case (1 st)
  show ?case
  proof (cases "loop_cond st")
    case False
    then have "drop (i st) (debtors st) = [] \<or> drop (j st) (creditors st) = []"
      by (auto simp: loop_cond_def)
    then have "greedy_match (drop (i st) (debtors st)) (drop (j st) (creditors st)) = []"
      by (cases "drop (i st) (debtors st)") auto
    with False show ?thesis by (simp add: settle_loop.simps [of st])
  next
    case True
    then have il: "i st < length (debtors st)" and jl: "j st < length (creditors st)"
      by (simp_all add: loop_cond_def)
    define d where "d = debtors st ! i st"
    define c where "c = creditors st ! j st"
    have dd: "drop (i st) (debtors st) = d # drop (Suc (i st)) (debtors st)"
      using il by (simp add: d_def Cons_nth_drop_Suc)
    have dc: "drop (j st) (creditors st) = c # drop (Suc (j st)) (creditors st)"
      using jl by (simp add: c_def Cons_nth_drop_Suc)
    have "settle_loop st = settle_loop (loop_body st)"
      using True by (simp add: settle_loop.simps [of st])
    also have "\<dots> = lines (loop_body st) @
        greedy_match (drop (i (loop_body st)) (debtors (loop_body st)))
                     (drop (j (loop_body st)) (creditors (loop_body st)))"
      using 1 True by simp
    also have "\<dots> = lines st @ greedy_match (d # drop (Suc (i st)) (debtors st)) (c # drop (Suc (j st)) (creditors st))"
      using il jl
      by (simp add: loop_body_def Let_def d_def [symmetric] c_def [symmetric] min_def
            flip: Cons_nth_drop_Suc upd_conv_take_nth_drop)
    finally show ?thesis by (simp only: dd dc)
  qed
qed

lemma sort_key_stable_desc:
  "stable_desc_sort_of xs (sort_key (\<lambda>b. - balance_ore b) xs)"
proof -
  have "sorted (map (\<lambda>b. - balance_ore b) (sort_key (\<lambda>b. - balance_ore b) xs))"
    by (rule sorted_sort_key)
  then have s: "sorted_wrt (\<lambda>a b. balance_ore a \<ge> balance_ore b) (sort_key (\<lambda>b. - balance_ore b) xs)"
    by (simp add: sorted_map)
  have "filter (\<lambda>b. balance_ore b = k) (sort_key (\<lambda>b. - balance_ore b) xs)
      = filter (\<lambda>b. balance_ore b = k) xs" for k
    using sort_key_stable [of "\<lambda>b. - balance_ore b" "- k" xs] by simp
  with s show ?thesis by (simp add: stable_desc_sort_of_def)
qed


text \<open>
  C1. The creditors are the members with a positive balance and the debtors those with a
  negative balance, kept by magnitude; both groups are sorted in descending order and the
  sort is stable; the loop then is the greedy two-pointer matching: the transfer between
  the earliest unresolved debtor and creditor is the minimum of their remaining amounts,
  a line is emitted only when it is positive, and a party whose remaining amount is zero
  is passed. For members X, Y, Z and one expense of 900 paid by X the balances are
  600, -300, -300 and the plan is two lines of 300, 600 in total.
\<close>

theorem computeSettlements_greedy_match:
  "stable_desc_sort_of (filter (\<lambda>b. balance_ore b > 0) bs) (creditors_of bs)
   \<and> stable_desc_sort_of
       (map (\<lambda>b. b\<lparr>balance_ore := - balance_ore b\<rparr>) (filter (\<lambda>b. balance_ore b < 0) bs))
       (debtors_of bs)
   \<and> computeSettlements bs = greedy_match (debtors_of bs) (creditors_of bs)
   \<and> map balance_ore
        (balances
          [\<lparr>user_id = (js ''X''), role = (js ''member''), display_name = (js ''X'')\<rparr>,
           \<lparr>user_id = (js ''Y''), role = (js ''member''), display_name = (js ''Y'')\<rparr>,
           \<lparr>user_id = (js ''Z''), role = (js ''member''), display_name = (js ''Z'')\<rparr>]
          [\<lparr>e_id = (js ''e1''), household_id = (js ''h''), paid_by = (js ''X''), title = (js ''t''),
            amount_ore = 900, created_by = (js ''X''), created_at = (js ''2024'')\<rparr>]) = [600, - 300, - 300]
   \<and> computeSettlements
        (balances
          [\<lparr>user_id = (js ''X''), role = (js ''member''), display_name = (js ''X'')\<rparr>,
           \<lparr>user_id = (js ''Y''), role = (js ''member''), display_name = (js ''Y'')\<rparr>,
           \<lparr>user_id = (js ''Z''), role = (js ''member''), display_name = (js ''Z'')\<rparr>]
          [\<lparr>e_id = (js ''e1''), household_id = (js ''h''), paid_by = (js ''X''), title = (js ''t''),
            amount_ore = 900, created_by = (js ''X''), created_at = (js ''2024'')\<rparr>])
       = [\<lparr>from_name = (js ''Y''), to_name = (js ''X''), line_amount_ore = 300\<rparr>,
          \<lparr>from_name = (js ''Z''), to_name = (js ''X''), line_amount_ore = 300\<rparr>]"
proof -
  have a: "stable_desc_sort_of (filter (\<lambda>b. balance_ore b > 0) bs) (creditors_of bs)"
    using sort_key_stable_desc [of "filter (\<lambda>b. balance_ore b > 0) bs"]
    by (simp add: creditors_of_def)
  have b: "stable_desc_sort_of
       (map (\<lambda>b. b\<lparr>balance_ore := - balance_ore b\<rparr>) (filter (\<lambda>b. balance_ore b < 0) bs))
       (debtors_of bs)"
    unfolding debtors_of_def by (rule sort_key_stable_desc)
  have c: "computeSettlements bs = greedy_match (debtors_of bs) (creditors_of bs)"
    by (simp add: computeSettlements_def settle_loop_greedy)
  have d: "map balance_ore
        (balances
          [\<lparr>user_id = (js ''X''), role = (js ''member''), display_name = (js ''X'')\<rparr>,
           \<lparr>user_id = (js ''Y''), role = (js ''member''), display_name = (js ''Y'')\<rparr>,
           \<lparr>user_id = (js ''Z''), role = (js ''member''), display_name = (js ''Z'')\<rparr>]
          [\<lparr>e_id = (js ''e1''), household_id = (js ''h''), paid_by = (js ''X''), title = (js ''t''),
            amount_ore = 900, created_by = (js ''X''), created_at = (js ''2024'')\<rparr>]) = [600, - 300, - 300]"
    by code_simp
  have e: "computeSettlements
        (balances
          [\<lparr>user_id = (js ''X''), role = (js ''member''), display_name = (js ''X'')\<rparr>,
           \<lparr>user_id = (js ''Y''), role = (js ''member''), display_name = (js ''Y'')\<rparr>,
           \<lparr>user_id = (js ''Z''), role = (js ''member''), display_name = (js ''Z'')\<rparr>]
          [\<lparr>e_id = (js ''e1''), household_id = (js ''h''), paid_by = (js ''X''), title = (js ''t''),
            amount_ore = 900, created_by = (js ''X''), created_at = (js ''2024'')\<rparr>])
       = [\<lparr>from_name = (js ''Y''), to_name = (js ''X''), line_amount_ore = 300\<rparr>,
          \<lparr>from_name = (js ''Z''), to_name = (js ''X''), line_amount_ore = 300\<rparr>]"
    by code_simp
  from a b c d e show ?thesis by blast
qed

subsection \<open>Sums of balances\<close>

lemma foldl_totals:
  "(case foldl (\<lambda>m e. m(paid_by e \<mapsto> (case m (paid_by e) of None \<Rightarrow> 0 | Some v \<Rightarrow> v) + amount_ore e)) m0 es u
      of None \<Rightarrow> 0 | Some v \<Rightarrow> v)
     = (case m0 u of None \<Rightarrow> 0 | Some v \<Rightarrow> v)
       + sum_list (map amount_ore (filter (\<lambda>e. paid_by e = u) es))"
  by (induction es arbitrary: m0) (auto split: option.splits)

lemma totalsByUser_paid:
  "(case totalsByUser es u of None \<Rightarrow> 0 | Some v \<Rightarrow> v)
     = sum_list (map amount_ore (filter (\<lambda>e. paid_by e = u) es))"
  using foldl_totals [of Map.empty es u] by (simp add: totalsByUser_def)

lemma foldl_total: "foldl (\<lambda>sum e. sum + amount_ore e) a es = a + sum_list (map amount_ore es)"
  by (induction es arbitrary: a) auto

lemma totalOre_sum: "totalOre es = sum_list (map amount_ore es)"
  by (simp add: totalOre_def foldl_total)

lemma floor_half: "\<lfloor>1 / 2 :: rat\<rfloor> = 0"
  by (rule floor_unique) simp_all

lemma all_zero_no_transfers:
  "list_all (\<lambda>b. balance_ore b = 0) bs \<Longrightarrow> computeSettlements bs = []"
proof -
  assume z: "list_all (\<lambda>b. balance_ore b = 0) bs"
  then have "filter (\<lambda>b. balance_ore b > 0) bs = []" "filter (\<lambda>b. balance_ore b < 0) bs = []"
    by (induction bs) auto
  then show ?thesis
    by (simp add: computeSettlements_def creditors_of_def debtors_of_def settle_loop.simps loop_cond_def)
qed

lemma single_balance_no_transfers: "computeSettlements [b] = []"
  by (simp add: computeSettlements_def creditors_of_def debtors_of_def settle_loop.simps loop_cond_def)

lemma balances_empty_ledger:
  "map balance_ore (balances ms []) = replicate (length ms) 0"
proof (cases "ms = []")
  case True then show ?thesis by (simp add: balances_def)
next
  case False
  then have "map balance_ore (balances ms []) = map (\<lambda>m. 0) ms"
    by (simp add: balances_def totalsByUser_def totalOre_def roundOre_def comp_def floor_half)
  then show ?thesis by (simp add: map_replicate_const)
qed

lemma balances_single_payer:
  assumes "\<forall>e\<in>set es. paid_by e = user_id m"
  shows "map balance_ore (balances [m] es) = [0]"
proof -
  have "filter (\<lambda>e. paid_by e = user_id m) es = es"
    using assms by (simp add: filter_id_conv)
  then have "(case totalsByUser es (user_id m) of None \<Rightarrow> 0 | Some v \<Rightarrow> v) = totalOre es"
    by (simp add: totalsByUser_paid totalOre_sum)
  then show ?thesis by (simp add: balances_def roundOre_def floor_half)
qed






text \<open>
  C8. Without members there are no balances and no transfers; with an empty
  ledger every balance is zero and there are no transfers; with a single member there are
  no transfers, and the balance of that member is zero when every entry of the ledger
  was paid by that member.
\<close>

theorem settlement_edge_cases:
  "balances [] es = [] \<and> computeSettlements (balances [] es) = []
   \<and> map balance_ore (balances ms []) = replicate (length ms) 0
   \<and> computeSettlements (balances ms []) = []
   \<and> computeSettlements (balances [m] es) = []
   \<and> ((\<forall>e\<in>set es. paid_by e = user_id m) \<longrightarrow> map balance_ore (balances [m] es) = [0])"
proof -
  have a: "balances [] es = []" by (simp add: balances_def)
  have b: "computeSettlements [] = []"
    by (simp add: computeSettlements_def creditors_of_def debtors_of_def settle_loop.simps loop_cond_def)
  have c: "map balance_ore (balances ms []) = replicate (length ms) 0"
    by (rule balances_empty_ledger)
  have "list_all (\<lambda>x. x = 0) (map balance_ore (balances ms []))"
    unfolding c by (simp add: list_all_iff)
  then have "list_all (\<lambda>b. balance_ore b = 0) (balances ms [])"
    by (simp add: list_all_iff)
  then have d: "computeSettlements (balances ms []) = []"
    by (rule all_zero_no_transfers)
  have "\<exists>b. balances [m] es = [b]" by (simp add: balances_def Let_def)
  then have e: "computeSettlements (balances [m] es) = []"
    using single_balance_no_transfers by auto
  show ?thesis using a b c d e balances_single_payer by simp
qed

theorem settlement_edge_cases_witness:
  "paid_by \<lparr>e_id = (js ''e1''), household_id = (js ''h''), paid_by = (js ''X''), title = (js ''Ica''),
             amount_ore = 500, created_by = (js ''X''), created_at = (js ''2024'')\<rparr>
     = user_id \<lparr>user_id = (js ''X''), role = (js ''owner''), display_name = (js ''Xi'')\<rparr>
   \<and> map balance_ore
        (balances [\<lparr>user_id = (js ''X''), role = (js ''owner''), display_name = (js ''Xi'')\<rparr>]
           [\<lparr>e_id = (js ''e1''), household_id = (js ''h''), paid_by = (js ''X''), title = (js ''Ica''),
             amount_ore = 500, created_by = (js ''X''), created_at = (js ''2024'')\<rparr>]) = [0]
   \<and> computeSettlements
        (balances [\<lparr>user_id = (js ''X''), role = (js ''owner''), display_name = (js ''Xi'')\<rparr>]
           [\<lparr>e_id = (js ''e1''), household_id = (js ''h''), paid_by = (js ''X''), title = (js ''Ica''),
             amount_ore = 500, created_by = (js ''X''), created_at = (js ''2024'')\<rparr>]) = []"
proof -
  have h: "\<forall>e\<in>set [\<lparr>e_id = (js ''e1''), household_id = (js ''h''), paid_by = (js ''X''), title = (js ''Ica''),
                amount_ore = 500, created_by = (js ''X''), created_at = (js ''2024'')\<rparr>].
       paid_by e = user_id \<lparr>user_id = (js ''X''), role = (js ''owner''), display_name = (js ''Xi'')\<rparr>"
    by simp
  show ?thesis
    using h settlement_edge_cases
      [of "[\<lparr>e_id = (js ''e1''), household_id = (js ''h''), paid_by = (js ''X''), title = (js ''Ica''),
             amount_ore = 500, created_by = (js ''X''), created_at = (js ''2024'')\<rparr>]"
          "[]" "\<lparr>user_id = (js ''X''), role = (js ''owner''), display_name = (js ''Xi'')\<rparr>"]
    by simp
qed

theorem single_member_balance_counterexample:
  "map balance_ore
     (balances [\<lparr>user_id = (js ''X''), role = (js ''owner''), display_name = (js ''Xi'')\<rparr>]
        [\<lparr>e_id = (js ''e1''), household_id = (js ''h''), paid_by = (js ''Y''), title = (js ''Ica''),
          amount_ore = 100, created_by = (js ''Y''), created_at = (js ''2024'')\<rparr>]) = [- 100]
   \<and> map balance_ore
     (balances [\<lparr>user_id = (js ''X''), role = (js ''owner''), display_name = (js ''Xi'')\<rparr>]
        [\<lparr>e_id = (js ''e1''), household_id = (js ''h''), paid_by = (js ''Y''), title = (js ''Ica''),
          amount_ore = 100, created_by = (js ''Y''), created_at = (js ''2024'')\<rparr>]) \<noteq> [0]"
  by code_simp




section \<open>Properties of the optimistic mutations\<close>

subsection \<open>Create, remove and reload\<close>





text \<open>
  C4. A remove takes the record out of the collection at once and keeps the collection as
  it was before as its snapshot; when the remote delete fails the collection is set back
  to exactly that snapshot, in its order, whatever happened in between, and the error
  message is shown; when it succeeds nothing more changes. For the collection A, B, C and
  a failed remove of B the collection is A, B, C again.
\<close>

theorem remove_rollback:
  "shopping (fst (removeShopping item s)) = filter (\<lambda>x. s_id x \<noteq> s_id item) (shopping s)
   \<and> item \<notin> set (shopping (fst (removeShopping item s)))
   \<and> snd (removeShopping item s) = shopping s
   \<and> remote_log (fst (removeShopping item s)) = remote_log s @ [DeleteShopping (s_id item)]
   \<and> shopping (removeShopping_done (snd (removeShopping item s)) (Failed e) s') = shopping s
   \<and> msg (removeShopping_done (snd (removeShopping item s)) (Failed e) s') = Some e
   \<and> removeShopping_done (snd (removeShopping item s)) (Ok ()) s' = s'
   \<and> expenses (fst (removeExpense x es)) = filter (\<lambda>y. e_id y \<noteq> e_id x) (expenses es)
   \<and> snd (removeExpense x es) = expenses es
   \<and> expenses (removeExpense_done (snd (removeExpense x es)) (Failed e) es') = expenses es
   \<and> eco_msg (removeExpense_done (snd (removeExpense x es)) (Failed e) es') = Some e
   \<and> shopping (fst (removeShopping \<lparr>s_id = (js ''b''), s_text = (js ''B''), checked = False\<rparr>
        (initial_page\<lparr>shopping := [\<lparr>s_id = (js ''a''), s_text = (js ''A''), checked = False\<rparr>,
                                    \<lparr>s_id = (js ''b''), s_text = (js ''B''), checked = False\<rparr>,
                                    \<lparr>s_id = (js ''c''), s_text = (js ''C''), checked = True\<rparr>]\<rparr>)))
       = [\<lparr>s_id = (js ''a''), s_text = (js ''A''), checked = False\<rparr>,
          \<lparr>s_id = (js ''c''), s_text = (js ''C''), checked = True\<rparr>]
   \<and> shopping (removeShopping_done
        (snd (removeShopping \<lparr>s_id = (js ''b''), s_text = (js ''B''), checked = False\<rparr>
          (initial_page\<lparr>shopping := [\<lparr>s_id = (js ''a''), s_text = (js ''A''), checked = False\<rparr>,
                                      \<lparr>s_id = (js ''b''), s_text = (js ''B''), checked = False\<rparr>,
                                      \<lparr>s_id = (js ''c''), s_text = (js ''C''), checked = True\<rparr>]\<rparr>)))
        (Failed (js ''denied''))
        (fst (removeShopping \<lparr>s_id = (js ''b''), s_text = (js ''B''), checked = False\<rparr>
          (initial_page\<lparr>shopping := [\<lparr>s_id = (js ''a''), s_text = (js ''A''), checked = False\<rparr>,
                                      \<lparr>s_id = (js ''b''), s_text = (js ''B''), checked = False\<rparr>,
                                      \<lparr>s_id = (js ''c''), s_text = (js ''C''), checked = True\<rparr>]\<rparr>))))
       = [\<lparr>s_id = (js ''a''), s_text = (js ''A''), checked = False\<rparr>,
          \<lparr>s_id = (js ''b''), s_text = (js ''B''), checked = False\<rparr>,
          \<lparr>s_id = (js ''c''), s_text = (js ''C''), checked = True\<rparr>]"
  by (auto simp: removeShopping_def removeShopping_done_def removeExpense_def removeExpense_done_def
        Let_def)

text \<open>
  C5. A reload that succeeds replaces the whole collection by the rows that
  were read (by the empty collection when the read carries no rows): a record is in the
  collection afterwards exactly when it is among the rows read, so a record under a
  temporary id that the read does not contain is dropped. A reload that fails leaves the
  shopping collection as it is and shows the error; for the expenses it throws.
\<close>

theorem reload_replaces:
  "shopping (loadShopping_done (Ok d) s) = (case d of None \<Rightarrow> [] | Some rows \<Rightarrow> rows)
   \<and> (x \<in> set (shopping (loadShopping_done (Ok (Some rows)) s))) = (x \<in> set rows)
   \<and> msg (loadShopping_done (Ok d) s) = msg s
   \<and> shopping (loadShopping_done (Failed e) s) = shopping s
   \<and> msg (loadShopping_done (Failed e) s) = Some e
   \<and> remote_log (loadShopping hid s) = remote_log s @ [SelectShopping hid]
   \<and> shopping (loadShopping hid s) = shopping s
   \<and> loadExpenses_done (Ok ed) es
       = Inr (es\<lparr>expenses := (case ed of None \<Rightarrow> [] | Some rows \<Rightarrow> rows)\<rparr>)
   \<and> loadExpenses_done (Failed e) es = Inl e"
  by (simp add: loadShopping_done_def loadShopping_def loadExpenses_done_def)

theorem reload_drops_temporary_counterexample:
  "\<lparr>s_id = (js ''temp-u1''), s_text = (js ''milk''), checked = False\<rparr>
     \<in> set (shopping (fst (addShopping (js ''u1'')
          (initial_page\<lparr>householdId := Some (js ''h1''), userId := Some (js ''me''), shoppingText := (js ''milk'')\<rparr>))))
   \<and> \<lparr>s_id = (js ''temp-u1''), s_text = (js ''milk''), checked = False\<rparr>
     \<notin> set (shopping (loadShopping_done (Ok (Some [\<lparr>s_id = (js ''r7''), s_text = (js ''eggs''), checked = False\<rparr>]))
          (fst (addShopping (js ''u1'')
            (initial_page\<lparr>householdId := Some (js ''h1''), userId := Some (js ''me''), shoppingText := (js ''milk'')\<rparr>)))))"
  by (simp add: loadShopping_done_def addShopping_def initial_page_def Let_def trim_def is_space_def js_def)

subsection \<open>Updates and the error message\<close>

lemma toggle_failed_shopping:
  "shopping (toggleShopping_done item (Failed e) (toggleShopping item s))
     = map (\<lambda>x. if s_id x = s_id item then x\<lparr>checked := checked item\<rparr> else x) (shopping s)"
  by (simp add: toggleShopping_def toggleShopping_done_def)

lemma set_checked_frame:
  "map s_id (map (\<lambda>x. if s_id x = k then x\<lparr>checked := b\<rparr> else x) xs) = map s_id xs"
  "map s_text (map (\<lambda>x. if s_id x = k then x\<lparr>checked := b\<rparr> else x) xs) = map s_text xs"
  "filter (\<lambda>x. s_id x \<noteq> k) (map (\<lambda>x. if s_id x = k then x\<lparr>checked := b\<rparr> else x) xs)
     = filter (\<lambda>x. s_id x \<noteq> k) xs"
  by (induction xs) auto

lemma toggle_failed_restores:
  assumes "\<forall>x\<in>set (shopping s). s_id x = s_id item \<longrightarrow> checked x = checked item"
  shows "shopping (toggleShopping_done item (Failed e) (toggleShopping item s)) = shopping s"
  unfolding toggle_failed_shopping by (rule map_idI) (use assms in auto)

text \<open>
  C6. Both kinds of update change the local record at once. The checkbox
  toggle sends its remote update immediately; a pantry edit sends nothing and arms a
  timer for the record. When the immediate update fails, the \<open>checked\<close> field of the
  records with that id is set back to the value the toggled item had (so the collection
  is as before when the item was the current record), no id, no text and no other record
  changes, and the error message is shown. When a debounced update fails only the error
  message is shown: the local records keep the patch.
\<close>

theorem update_paths:
  "shopping (toggleShopping item s)
     = map (\<lambda>x. if s_id x = s_id item then x\<lparr>checked := \<not> checked x\<rparr> else x) (shopping s)
   \<and> remote_log (toggleShopping item s)
     = remote_log s @ [UpdateShoppingChecked (s_id item) (\<not> checked item)]
   \<and> pantry (schedulePantryUpdate k p s)
     = map (\<lambda>x. if p_id x = k then apply_patch x p else x) (pantry s)
   \<and> remote_log (schedulePantryUpdate k p s) = remote_log s
   \<and> last (pending (schedulePantryUpdate k p s)) = (next_handle s, k, p)
   \<and> ((\<forall>x\<in>set (shopping s). s_id x = s_id item \<longrightarrow> checked x = checked item) \<longrightarrow>
        shopping (toggleShopping_done item (Failed e) (toggleShopping item s)) = shopping s)
   \<and> map s_id (shopping (toggleShopping_done item (Failed e) (toggleShopping item s)))
       = map s_id (shopping s)
   \<and> map s_text (shopping (toggleShopping_done item (Failed e) (toggleShopping item s)))
       = map s_text (shopping s)
   \<and> filter (\<lambda>x. s_id x \<noteq> s_id item)
        (shopping (toggleShopping_done item (Failed e) (toggleShopping item s)))
       = filter (\<lambda>x. s_id x \<noteq> s_id item) (shopping s)
   \<and> msg (toggleShopping_done item (Failed e) s') = Some e
   \<and> pantry (pantryUpdate_done (Failed e) s') = pantry s'
   \<and> shopping (pantryUpdate_done (Failed e) s') = shopping s'
   \<and> msg (pantryUpdate_done (Failed e) s') = Some e
   \<and> pantry (timer_fires h s') = pantry s'"
proof -
  have a: "(\<forall>x\<in>set (shopping s). s_id x = s_id item \<longrightarrow> checked x = checked item) \<longrightarrow>
        shopping (toggleShopping_done item (Failed e) (toggleShopping item s)) = shopping s"
    using toggle_failed_restores by blast
  have b: "map s_id (shopping (toggleShopping_done item (Failed e) (toggleShopping item s)))
       = map s_id (shopping s)"
    unfolding toggle_failed_shopping by (rule set_checked_frame)
  have c: "map s_text (shopping (toggleShopping_done item (Failed e) (toggleShopping item s)))
       = map s_text (shopping s)"
    unfolding toggle_failed_shopping by (rule set_checked_frame)
  have d: "filter (\<lambda>x. s_id x \<noteq> s_id item)
        (shopping (toggleShopping_done item (Failed e) (toggleShopping item s)))
       = filter (\<lambda>x. s_id x \<noteq> s_id item) (shopping s)"
    unfolding toggle_failed_shopping by (rule set_checked_frame)
  have f: "pantry (timer_fires h s') = pantry s'"
    by (simp add: timer_fires_def split: list.splits prod.splits)
  have g: "last (pending (schedulePantryUpdate k p s)) = (next_handle s, k, p)"
    by (simp add: schedulePantryUpdate_def setTimeout_def clearTimeout_def Let_def split: option.splits)
  have h: "pantry (schedulePantryUpdate k p s)
     = map (\<lambda>x. if p_id x = k then apply_patch x p else x) (pantry s)"
    "remote_log (schedulePantryUpdate k p s) = remote_log s"
    by (simp_all add: schedulePantryUpdate_def setTimeout_def clearTimeout_def Let_def split: option.splits)
  show ?thesis
    using a b c d f g h
    by (simp add: toggleShopping_def toggleShopping_done_def pantryUpdate_done_def)
qed


theorem update_paths_witness:
  "shopping (toggleShopping \<lparr>s_id = (js ''a''), s_text = (js ''milk''), checked = False\<rparr>
       (initial_page\<lparr>shopping := [\<lparr>s_id = (js ''a''), s_text = (js ''milk''), checked = False\<rparr>,
                                   \<lparr>s_id = (js ''b''), s_text = (js ''eggs''), checked = True\<rparr>]\<rparr>))
     = [\<lparr>s_id = (js ''a''), s_text = (js ''milk''), checked = True\<rparr>,
        \<lparr>s_id = (js ''b''), s_text = (js ''eggs''), checked = True\<rparr>]
   \<and> shopping (toggleShopping_done \<lparr>s_id = (js ''a''), s_text = (js ''milk''), checked = False\<rparr> (Failed (js ''denied''))
       (toggleShopping \<lparr>s_id = (js ''a''), s_text = (js ''milk''), checked = False\<rparr>
         (initial_page\<lparr>shopping := [\<lparr>s_id = (js ''a''), s_text = (js ''milk''), checked = False\<rparr>,
                                     \<lparr>s_id = (js ''b''), s_text = (js ''eggs''), checked = True\<rparr>]\<rparr>)))
     = [\<lparr>s_id = (js ''a''), s_text = (js ''milk''), checked = False\<rparr>,
        \<lparr>s_id = (js ''b''), s_text = (js ''eggs''), checked = True\<rparr>]"
proof -
  let ?item = "\<lparr>s_id = (js ''a''), s_text = (js ''milk''), checked = False\<rparr>"
  let ?s = "initial_page\<lparr>shopping := [\<lparr>s_id = (js ''a''), s_text = (js ''milk''), checked = False\<rparr>,
                                     \<lparr>s_id = (js ''b''), s_text = (js ''eggs''), checked = True\<rparr>]\<rparr>"
  have h: "\<forall>x\<in>set (shopping ?s). s_id x = s_id ?item \<longrightarrow> checked x = checked ?item"
    by simp
  show ?thesis
    using h update_paths [of ?item ?s _ _ "(js ''denied'')"] by simp
qed

theorem debounced_failure_counterexample:
  "map p_name (pantry (pantryUpdate_done (Failed (js ''denied''))
      (timer_fires 1
        (schedulePantryUpdate (js ''p1'')
           \<lparr>patch_id = None, patch_name = Some (js ''rice, brown''), patch_qty = None, patch_unit = None\<rparr>
           (initial_page\<lparr>pantry := [\<lparr>p_id = (js ''p1''), p_name = (js ''rice''), qty = None, p_unit = None\<rparr>]\<rparr>)))))
     = [(js ''rice, brown'')]
   \<and> pantry (pantryUpdate_done (Failed (js ''denied''))
      (timer_fires 1
        (schedulePantryUpdate (js ''p1'')
           \<lparr>patch_id = None, patch_name = Some (js ''rice, brown''), patch_qty = None, patch_unit = None\<rparr>
           (initial_page\<lparr>pantry := [\<lparr>p_id = (js ''p1''), p_name = (js ''rice''), qty = None, p_unit = None\<rparr>]\<rparr>))))
     \<noteq> pantry (initial_page\<lparr>pantry := [\<lparr>p_id = (js ''p1''), p_name = (js ''rice''), qty = None, p_unit = None\<rparr>]\<rparr>)
   \<and> remote_log (pantryUpdate_done (Failed (js ''denied''))
      (timer_fires 1
        (schedulePantryUpdate (js ''p1'')
           \<lparr>patch_id = None, patch_name = Some (js ''rice, brown''), patch_qty = None, patch_unit = None\<rparr>
           (initial_page\<lparr>pantry := [\<lparr>p_id = (js ''p1''), p_name = (js ''rice''), qty = None, p_unit = None\<rparr>]\<rparr>))))
     = [UpdatePantry (js ''p1'')
          \<lparr>patch_id = None, patch_name = Some (js ''rice, brown''), patch_qty = None, patch_unit = None\<rparr>]"
  by (simp add: pantryUpdate_done_def timer_fires_def schedulePantryUpdate_def setTimeout_def
        clearTimeout_def initial_page_def apply_patch_def Let_def)

text \<open>
  C7. A handler that adds, toggles or removes a shopping item clears the
  message when it starts; a failed remote call sets the message to the error's message;
  a successful one leaves the message as it is, so after such a mutation that succeeds the
  message is empty. A debounced pantry edit never clears the message: scheduling, firing
  and a successful remote update all leave it as it was.
\<close>

theorem last_error:
  "msg (fst (addShopping uuid s)) = None
   \<and> msg (toggleShopping item s) = None
   \<and> msg (fst (removeShopping item s)) = None
   \<and> msg (addShopping_done t (Ok d) s') = msg s'
   \<and> msg (toggleShopping_done item (Ok ()) s') = msg s'
   \<and> msg (removeShopping_done snap (Ok ()) s') = msg s'
   \<and> msg (addShopping_done t (Ok d) (fst (addShopping uuid s))) = None
   \<and> msg (toggleShopping_done item (Ok ()) (toggleShopping item s)) = None
   \<and> msg (removeShopping_done snap (Ok ()) (fst (removeShopping item s))) = None
   \<and> msg (addShopping_done t (Failed e) s') = Some e
   \<and> msg (toggleShopping_done item (Failed e) s') = Some e
   \<and> msg (removeShopping_done snap (Failed e) s') = Some e
   \<and> msg (loadShopping_done (Failed e) s') = Some e
   \<and> msg (pantryUpdate_done (Failed e) s') = Some e
   \<and> msg (schedulePantryUpdate k p s) = msg s
   \<and> msg (timer_fires h s) = msg s
   \<and> msg (pantryUpdate_done (Ok ()) s) = msg s"
proof -
  have a: "msg (fst (addShopping uuid s)) = None"
    by (simp add: addShopping_def Let_def split: option.splits)
  have b: "msg (schedulePantryUpdate k p s) = msg s"
    by (simp add: schedulePantryUpdate_def setTimeout_def clearTimeout_def Let_def split: option.splits)
  have c: "msg (timer_fires h s) = msg s"
    by (simp add: timer_fires_def split: list.splits prod.splits)
  show ?thesis
    using a b c
    by (simp add: toggleShopping_def removeShopping_def addShopping_done_def toggleShopping_done_def
          removeShopping_done_def loadShopping_done_def pantryUpdate_done_def Let_def)
qed

theorem debounced_success_keeps_error_counterexample:
  "msg (loadShopping_done (Failed (js ''offline''))
         (initial_page\<lparr>pantry := [\<lparr>p_id = (js ''p1''), p_name = (js ''rice''), qty = None, p_unit = None\<rparr>]\<rparr>))
     = Some (js ''offline'')
   \<and> msg (pantryUpdate_done (Ok ())
      (timer_fires 1
        (schedulePantryUpdate (js ''p1'')
           \<lparr>patch_id = None, patch_name = None, patch_qty = Some (Some 2), patch_unit = None\<rparr>
           (loadShopping_done (Failed (js ''offline''))
             (initial_page\<lparr>pantry := [\<lparr>p_id = (js ''p1''), p_name = (js ''rice''), qty = None, p_unit = None\<rparr>]\<rparr>)))))
     = Some (js ''offline'')
   \<and> msg (pantryUpdate_done (Ok ())
      (timer_fires 1
        (schedulePantryUpdate (js ''p1'')
           \<lparr>patch_id = None, patch_name = None, patch_qty = Some (Some 2), patch_unit = None\<rparr>
           (loadShopping_done (Failed (js ''offline''))
             (initial_page\<lparr>pantry := [\<lparr>p_id = (js ''p1''), p_name = (js ''rice''), qty = None, p_unit = None\<rparr>]\<rparr>)))))
     \<noteq> None"
  by (simp add: pantryUpdate_done_def timer_fires_def schedulePantryUpdate_def setTimeout_def
        clearTimeout_def initial_page_def loadShopping_done_def Let_def)

subsection \<open>Debounced edits\<close>


lemma schedule_fields [simp]:
  "next_handle (schedulePantryUpdate k p s) = next_handle s + 1"
  "pantryTimers (schedulePantryUpdate k p s) = (pantryTimers s)(k \<mapsto> next_handle s)"
  "remote_log (schedulePantryUpdate k p s) = remote_log s"
  "msg (schedulePantryUpdate k p s) = msg s"
  "shopping (schedulePantryUpdate k p s) = shopping s"
  "pantry (schedulePantryUpdate k p s) = map (\<lambda>x. if p_id x = k then apply_patch x p else x) (pantry s)"
  by (simp_all add: schedulePantryUpdate_def setTimeout_def clearTimeout_def Let_def split: option.splits)
















section \<open>Termination and effects of the transfer plan\<close>

subsection \<open>The run on the store follows the run on values\<close>

lemma map_nth_update_at:
  assumes "distinct rs" and "k < length rs" and "rs ! k < length os"
  shows "map ((!) (os[rs ! k := v])) rs = (map ((!) os) rs)[k := v]"
proof (rule nth_equalityI)
  show "length (map ((!) (os[rs ! k := v])) rs) = length ((map ((!) os) rs)[k := v])" by simp
next
  fix n assume "n < length (map ((!) (os[rs ! k := v])) rs)"
  then have n: "n < length rs" by simp
  show "map ((!) (os[rs ! k := v])) rs ! n = (map ((!) os) rs)[k := v] ! n"
  proof (cases "n = k")
    case True
    with assms show ?thesis by simp
  next
    case False
    with assms n have "rs ! n \<noteq> rs ! k" by (simp add: nth_eq_iff_index_eq)
    with n False show ?thesis by (simp add: nth_list_update)
  qed
qed

lemma map_nth_update_other:
  "r \<notin> set rs \<Longrightarrow> map ((!) (os[r := v])) rs = map ((!) os) rs"
  by (induction rs) (auto simp: nth_list_update)

lemma heap_rel_cond: "heap_rel h0 st ast \<Longrightarrow> hloop_cond st = loop_cond ast"
  by (simp add: heap_rel_def hloop_cond_def loop_cond_def)

lemma heap_rel_step:
  assumes r: "heap_rel h0 st ast" and c: "hloop_cond st"
  shows "heap_rel h0 (hloop_body st) (loop_body ast)"
proof -
  define os where "os = objs (hp st)"
  define ds where "ds = arrs (hp st) ! hdebtors st"
  define cs where "cs = arrs (hp st) ! hcreditors st"
  define d where "d = ds ! hi st"
  define c' where "c' = cs ! hj st"
  define x where "x = min (balance_ore (os ! d)) (balance_ore (os ! c'))"
  define od where "od = (os ! d)\<lparr>balance_ore := balance_ore (os ! d) - x\<rparr>"
  define oc where "oc = (os ! c')\<lparr>balance_ore := balance_ore (os ! c') - x\<rparr>"
  from c have il: "hi st < length ds" and jl: "hj st < length cs"
    by (simp_all add: hloop_cond_def ds_def cs_def)
  from r have dist: "distinct (ds @ cs)"
    and rng: "list_all (\<lambda>r. length (objs h0) \<le> r \<and> r < length os) (ds @ cs)"
    and pre: "take (length (objs h0)) os = objs h0"
    and arr: "take (length (arrs h0)) (arrs (hp st)) = arrs h0"
    and ad: "debtors ast = map ((!) os) ds" and ac: "creditors ast = map ((!) os) cs"
    and ij: "i ast = hi st" "j ast = hj st" "lines ast = hlines st"
    by (simp_all add: heap_rel_def os_def ds_def cs_def)
  have d_in: "d \<in> set ds" and c_in: "c' \<in> set cs"
    using il jl by (simp_all add: d_def c'_def)
  then have dc: "d \<noteq> c'" and d_cs: "d \<notin> set cs" and c_ds: "c' \<notin> set ds"
    using dist by auto
  have d_rng: "length (objs h0) \<le> d" "d < length os" and c_rng: "length (objs h0) \<le> c'" "c' < length os"
    using rng d_in c_in by (auto simp: list_all_iff)
  have os2: "objs (hp (hloop_body st)) = os[d := od, c' := oc]"
    using dc d_rng c_rng
    by (simp add: hloop_body_def sub_balance_def Let_def os_def ds_def cs_def d_def c'_def x_def
          od_def oc_def)
  have arrs2: "arrs (hp (hloop_body st)) = arrs (hp st)"
    by (simp add: hloop_body_def sub_balance_def Let_def)
  have ptr: "hdebtors (hloop_body st) = hdebtors st" "hcreditors (hloop_body st) = hcreditors st"
    by (simp_all add: hloop_body_def Let_def)
  have nd: "os[d := od, c' := oc] ! d = od" and nc: "os[d := od, c' := oc] ! c' = oc"
    using dc d_rng c_rng by simp_all
  have md: "map ((!) (os[d := od, c' := oc])) ds = (map ((!) os) ds)[hi st := od]"
    using map_nth_update_at [of ds "hi st" os od] dist il d_rng c_ds
    by (simp add: map_nth_update_other d_def)
  have "map ((!) (os[d := od, c' := oc])) cs = (map ((!) (os[d := od])) cs)[hj st := oc]"
    using map_nth_update_at [of cs "hj st" "os[d := od]" oc] dist jl c_rng
    by (simp add: c'_def)
  then have mc: "map ((!) (os[d := od, c' := oc])) cs = (map ((!) os) cs)[hj st := oc]"
    using d_cs by (simp add: map_nth_update_other)
  have pre2: "take (length (objs h0)) (os[d := od, c' := oc]) = objs h0"
    using d_rng c_rng pre by simp
  have idx: "hi (hloop_body st) = (if balance_ore od \<le> 0 then hi st + 1 else hi st)"
      "hj (hloop_body st) = (if balance_ore oc \<le> 0 then hj st + 1 else hj st)"
    using dc d_rng c_rng
    by (simp_all add: hloop_body_def sub_balance_def Let_def os_def [symmetric] ds_def [symmetric]
          cs_def [symmetric] d_def [symmetric] c'_def [symmetric] x_def [symmetric]
          od_def [symmetric] oc_def [symmetric])
  have ln: "hlines (hloop_body st) =
      (if x > 0 then hlines st @ [\<lparr>from_name = b_display_name (os ! d),
          to_name = b_display_name (os ! c'), line_amount_ore = x\<rparr>] else hlines st)"
    by (simp add: hloop_body_def Let_def os_def ds_def cs_def d_def c'_def x_def)
  have abs_d: "debtors ast ! i ast = os ! d" and abs_c: "creditors ast ! j ast = os ! c'"
    using il jl by (simp_all add: ad ac ij d_def c'_def)
  have body: "loop_body ast =
      \<lparr>debtors = (map ((!) os) ds)[hi st := od],
       creditors = (map ((!) os) cs)[hj st := oc],
       i = (if balance_ore od \<le> 0 then hi st + 1 else hi st),
       j = (if balance_ore oc \<le> 0 then hj st + 1 else hj st),
       lines = (if x > 0 then hlines st @ [\<lparr>from_name = b_display_name (os ! d),
          to_name = b_display_name (os ! c'), line_amount_ore = x\<rparr>] else hlines st)\<rparr>"
    unfolding loop_body_def Let_def abs_d abs_c
    by (simp add: ad ac ij x_def od_def oc_def)
  show ?thesis
    unfolding heap_rel_def os2 arrs2 ptr
    using dist rng arr pre2 md mc idx ln
    by (simp add: body ds_def [symmetric] cs_def [symmetric] list_all_iff)
qed

lemma heap_loop_simulates:
  "heap_rel h0 st ast \<Longrightarrow>
   \<exists>h'. hsettle_loop st = Some (settle_loop ast, h') \<and>
        take (length (objs h0)) (objs h') = objs h0 \<and>
        take (length (arrs h0)) (arrs h') = arrs h0"
proof (induction ast arbitrary: st rule: settle_loop.induct)
  case (1 ast)
  show ?case
  proof (cases "loop_cond ast")
    case True
    then have c: "hloop_cond st" using "1.prems" by (simp add: heap_rel_cond)
    have "heap_rel h0 (hloop_body st) (loop_body ast)"
      using "1.prems" c by (rule heap_rel_step)
    from "1.IH" [OF True this] show ?thesis
      using True c by (simp add: settle_loop.simps [of ast] hsettle_loop.simps [of st])
  next
    case False
    then have c: "\<not> hloop_cond st" using "1.prems" by (simp add: heap_rel_cond)
    show ?thesis
      using False c "1.prems"
      by (simp add: settle_loop.simps [of ast] hsettle_loop.simps [of st] heap_rel_def)
  qed
qed


lemma insort_key_map:
  "map f (insort_key (\<lambda>x. g (f x)) x xs) = insort_key g (f x) (map f xs)"
  by (induction xs) auto

lemma sort_key_map:
  "map f (sort_key (\<lambda>x. g (f x)) xs) = sort_key g (map f xs)"
  by (induction xs) (simp_all add: insort_key_map)

lemma map_nth_window:
  "map ((!) (A @ B @ C)) [length A ..< length A + length B] = B"
  by (rule nth_equalityI) (simp_all add: nth_append)

lemma map_nth_prefix:
  "list_all (\<lambda>r. r < length A) rs \<Longrightarrow> map ((!) (A @ B)) rs = map ((!) A) rs"
  by (induction rs) (simp_all add: nth_append)

lemma filter_nth_prefix:
  "list_all (\<lambda>r. r < length A) rs \<Longrightarrow>
   filter (\<lambda>r. P ((A @ B) ! r)) rs = filter (\<lambda>r. P (A ! r)) rs"
  by (induction rs) (simp_all add: nth_append)

lemma heap_prepared:
  assumes v: "valid_array a h"
  shows "\<exists>st. computeSettlements_heap a h = hsettle_loop st \<and>
           heap_rel h st \<lparr>debtors = debtors_of (map ((!) (objs h)) (arrs h ! a)),
                           creditors = creditors_of (map ((!) (objs h)) (arrs h ! a)),
                           i = 0, j = 0, lines = []\<rparr>"
proof -
  define os0 where "os0 = objs h"
  define refs where "refs = arrs h ! a"
  define la where "la = length (arrs h)"
  define cf where "cf = filter (\<lambda>r. 0 < balance_ore (os0 ! r)) refs"
  define df where "df = filter (\<lambda>r. balance_ore (os0 ! r) < 0) refs"
  define C where "C = map ((!) os0) cf"
  define D where "D = map (\<lambda>r. (os0 ! r)\<lparr>balance_ore := - balance_ore (os0 ! r)\<rparr>) df"
  define n1 where "n1 = length os0 + length cf"
  define csr where "csr = sort_key (\<lambda>r. - balance_ore ((os0 @ C) ! r)) [length os0 ..< n1]"
  define dsr where "dsr = sort_key (\<lambda>r. - balance_ore ((os0 @ C @ D) ! r)) [n1 ..< n1 + length df]"
  define st where "st = \<lparr>hp = \<lparr>objs = os0 @ C @ D, arrs = arrs h @ [cf, csr, df, dsr]\<rparr>,
      hdebtors = la + 3, hcreditors = la + 1, hi = 0, hj = 0, hlines = []\<rparr>"
  from v have al: "a < la" and rv: "list_all (\<lambda>r. r < length os0) refs"
    by (simp_all add: valid_array_def la_def os0_def refs_def)
  have lenC: "length C = length cf" and lenD: "length D = length df"
    by (simp_all add: C_def D_def)
  have df': "filter (\<lambda>r. balance_ore ((os0 @ C) ! r) < 0) refs = df"
    unfolding df_def using rv by (rule filter_nth_prefix)
  have dfv: "list_all (\<lambda>r. r < length os0) df"
    using rv by (simp add: df_def list_all_iff)
  have D': "map (\<lambda>r. ((os0 @ C) ! r)\<lparr>balance_ore := - balance_ore ((os0 @ C) ! r)\<rparr>) df = D"
    unfolding D_def using dfv by (induction df) (simp_all add: nth_append)
  define h1 where "h1 = \<lparr>objs = os0, arrs = arrs h @ [cf]\<rparr>"
  define h2 where "h2 = \<lparr>objs = os0 @ C, arrs = arrs h @ [cf, [length os0 ..< n1]]\<rparr>"
  define h3 where "h3 = \<lparr>objs = os0 @ C, arrs = arrs h @ [cf, csr]\<rparr>"
  define h4 where "h4 = \<lparr>objs = os0 @ C, arrs = arrs h @ [cf, csr, df]\<rparr>"
  define h5 where "h5 = \<lparr>objs = os0 @ C @ D, arrs = arrs h @ [cf, csr, df, [n1 ..< n1 + length df]]\<rparr>"
  define h6 where "h6 = \<lparr>objs = os0 @ C @ D, arrs = arrs h @ [cf, csr, df, dsr]\<rparr>"
  have s1: "arr_filter (\<lambda>b. 0 < balance_ore b) a h = (la, h1)"
    by (cases h) (simp add: arr_filter_def h1_def la_def os0_def cf_def refs_def)
  have s2: "arr_map (\<lambda>b. b) la h1 = (la + 1, h2)"
    by (simp add: arr_map_def h1_def h2_def la_def Let_def C_def n1_def)
  have s3: "arr_sort_desc (la + 1) h2 = (la + 1, h3)"
    by (simp add: arr_sort_desc_def h2_def h3_def la_def csr_def nth_append list_update_append)
  have s4: "arr_filter (\<lambda>b. balance_ore b < 0) a h3 = (la + 2, h4)"
    using al by (simp add: arr_filter_def h3_def h4_def la_def nth_append_left refs_def [symmetric] df')
  have s5: "arr_map (\<lambda>b. b\<lparr>balance_ore := - balance_ore b\<rparr>) (la + 2) h4 = (la + 3, h5)"
    using nth_append_length_plus [of "arrs h" "[cf, csr, df]" 2]
    by (simp add: arr_map_def h4_def h5_def la_def Let_def D' n1_def lenC)
  have s6: "arr_sort_desc (la + 3) h5 = (la + 3, h6)"
    by (simp add: arr_sort_desc_def h5_def h6_def la_def dsr_def nth_append list_update_append)
  have comp: "computeSettlements_heap a h = hsettle_loop st"
    by (simp only: computeSettlements_heap_def Let_def s1 s2 s3 s4 s5 s6 prod.case st_def h6_def)
  have set_csr: "set csr = {length os0 ..< n1}" and set_dsr: "set dsr = {n1 ..< n1 + length df}"
    by (simp_all add: csr_def dsr_def)
  have dist: "distinct (dsr @ csr)"
    using set_csr set_dsr by (auto simp: csr_def dsr_def)
  have rng: "list_all (\<lambda>r. length os0 \<le> r \<and> r < length (os0 @ C @ D)) (dsr @ csr)"
    using set_csr set_dsr by (auto simp: list_all_iff n1_def lenC lenD)
  have bsC: "filter (\<lambda>b. 0 < balance_ore b) (map ((!) os0) refs) = C"
    by (simp add: C_def cf_def filter_map comp_def)
  have bsD: "map (\<lambda>b. b\<lparr>balance_ore := - balance_ore b\<rparr>)
               (filter (\<lambda>b. balance_ore b < 0) (map ((!) os0) refs)) = D"
    by (simp add: D_def df_def filter_map comp_def)
  have "map ((!) (os0 @ C @ D)) dsr = sort_key (\<lambda>b. - balance_ore b) (map ((!) (os0 @ C @ D)) [n1 ..< n1 + length df])"
    unfolding dsr_def by (rule sort_key_map)
  also have "map ((!) (os0 @ C @ D)) [n1 ..< n1 + length df] = D"
    using map_nth_window [of "os0 @ C" D "[]"] by (simp add: n1_def lenC lenD)
  finally have absD: "map ((!) (os0 @ C @ D)) dsr = debtors_of (map ((!) os0) refs)"
    by (simp add: debtors_of_def bsD)
  have "list_all (\<lambda>r. r < length (os0 @ C)) csr"
    using set_csr by (simp add: list_all_iff n1_def lenC)
  then have "map ((!) ((os0 @ C) @ D)) csr = map ((!) (os0 @ C)) csr"
    by (rule map_nth_prefix)
  also have "\<dots> = sort_key (\<lambda>b. - balance_ore b) (map ((!) (os0 @ C)) [length os0 ..< n1])"
    unfolding csr_def by (rule sort_key_map)
  also have "map ((!) (os0 @ C)) [length os0 ..< n1] = C"
    using map_nth_window [of os0 C "[]"] by (simp add: n1_def lenC)
  finally have absC: "map ((!) (os0 @ C @ D)) csr = creditors_of (map ((!) os0) refs)"
    by (simp add: creditors_of_def bsC)
  have "heap_rel h st \<lparr>debtors = debtors_of (map ((!) os0) refs),
                        creditors = creditors_of (map ((!) os0) refs),
                        i = 0, j = 0, lines = []\<rparr>"
    unfolding heap_rel_def
    using dist rng absD absC
    by (simp add: st_def la_def os0_def [symmetric] nth_append)
  with comp show ?thesis
    unfolding os0_def refs_def by blast
qed

lemma heap_run:
  assumes "valid_array a h"
  shows "\<exists>h'. computeSettlements_heap a h
            = Some (computeSettlements (map ((!) (objs h)) (arrs h ! a)), h') \<and>
          take (length (objs h)) (objs h') = objs h \<and>
          take (length (arrs h)) (arrs h') = arrs h"
proof -
  from heap_prepared [OF assms] obtain st where
    c: "computeSettlements_heap a h = hsettle_loop st" and
    r: "heap_rel h st \<lparr>debtors = debtors_of (map ((!) (objs h)) (arrs h ! a)),
                           creditors = creditors_of (map ((!) (objs h)) (arrs h ! a)),
                           i = 0, j = 0, lines = []\<rparr>"
    by blast
  from heap_loop_simulates [OF r] c show ?thesis
    by (simp add: computeSettlements_def)
qed

subsection \<open>Progress and the number of lines\<close>

lemma loop_body_facts:
  "length (debtors (loop_body st)) = length (debtors st)"
  "length (creditors (loop_body st)) = length (creditors st)"
  "i st \<le> i (loop_body st)" "j st \<le> j (loop_body st)"
  "i (loop_body st) \<le> i st + 1" "j (loop_body st) \<le> j st + 1"
  "i (loop_body st) = i st + 1 \<or> j (loop_body st) = j st + 1"
  "length (lines (loop_body st)) \<le> length (lines st) + 1"
  by (simp_all add: loop_body_def Let_def min_def)

lemma loop_body_measure:
  assumes "loop_cond st"
  shows "(length (debtors (loop_body st)) - i (loop_body st))
          + (length (creditors (loop_body st)) - j (loop_body st)) + 1
         \<le> (length (debtors st) - i st) + (length (creditors st) - j st)"
  using assms loop_body_facts(3,4,5,6,7) [of st]
  by (auto simp: loop_cond_def loop_body_facts(1,2))

lemma loop_body_progress:
  assumes "loop_cond st"
  shows "(i (loop_body st) = i st + 1 \<and> balance_ore (debtors (loop_body st) ! i st) = 0)
       \<or> (j (loop_body st) = j st + 1 \<and> balance_ore (creditors (loop_body st) ! j st) = 0)"
  using assms by (auto simp: loop_cond_def loop_body_def Let_def min_def)

lemma settle_loop_iterations:
  "\<exists>n. n \<le> (length (debtors st) - i st) + (length (creditors st) - j st)
       \<and> \<not> loop_cond ((loop_body ^^ n) st)
       \<and> settle_loop st = lines ((loop_body ^^ n) st)"
proof (induction st rule: settle_loop.induct)
  case (1 st)
  show ?case
  proof (cases "loop_cond st")
    case False
    then have "\<not> loop_cond ((loop_body ^^ 0) st) \<and> settle_loop st = lines ((loop_body ^^ 0) st)"
      by (simp add: settle_loop.simps [of st])
    then show ?thesis by blast
  next
    case True
    from "1.IH" [OF True] obtain n where
      n: "n \<le> (length (debtors (loop_body st)) - i (loop_body st))
              + (length (creditors (loop_body st)) - j (loop_body st))"
      and stop: "\<not> loop_cond ((loop_body ^^ n) (loop_body st))"
      and res: "settle_loop (loop_body st) = lines ((loop_body ^^ n) (loop_body st))"
      by blast
    have "Suc n \<le> (length (debtors st) - i st) + (length (creditors st) - j st)"
      using n loop_body_measure [OF True] by linarith
    moreover have "\<not> loop_cond ((loop_body ^^ Suc n) st)"
      using stop by (simp add: funpow_swap1)
    moreover have "settle_loop st = lines ((loop_body ^^ Suc n) st)"
      using res True by (simp add: settle_loop.simps [of st] funpow_swap1)
    ultimately show ?thesis by blast
  qed
qed

lemma settle_loop_count:
  "length (settle_loop st)
     \<le> length (lines st)
       + (if loop_cond st
          then (length (debtors st) - i st) + (length (creditors st) - j st) - 1 else 0)"
proof (induction st rule: settle_loop.induct)
  case (1 st)
  show ?case
  proof (cases "loop_cond st")
    case False
    then show ?thesis by (simp add: settle_loop.simps [of st])
  next
    case True
    have two: "2 \<le> (length (debtors st) - i st) + (length (creditors st) - j st)"
      using True unfolding loop_cond_def by linarith
    have m: "(length (debtors (loop_body st)) - i (loop_body st))
          + (length (creditors (loop_body st)) - j (loop_body st)) + 1
         \<le> (length (debtors st) - i st) + (length (creditors st) - j st)"
      by (rule loop_body_measure [OF True])
    have l: "length (lines (loop_body st)) \<le> length (lines st) + 1"
      by (rule loop_body_facts)
    have "length (settle_loop st) = length (settle_loop (loop_body st))"
      using True by (simp add: settle_loop.simps [of st])
    also have "\<dots> \<le> length (lines (loop_body st))
       + (if loop_cond (loop_body st)
          then (length (debtors (loop_body st)) - i (loop_body st))
               + (length (creditors (loop_body st)) - j (loop_body st)) - 1 else 0)"
      by (rule "1.IH" [OF True])
    also have "\<dots> \<le> length (lines st)
       + ((length (debtors st) - i st) + (length (creditors st) - j st) - 1)"
    proof (cases "loop_cond (loop_body st)")
      case True
      then show ?thesis using two m l by simp linarith
    next
      case False
      then show ?thesis using two l by simp
    qed
    finally show ?thesis using True by simp
  qed
qed

text \<open>
  C10. The loop stops after at most as many iterations as there are debtors
  and creditors together, and the plan is the list of lines at that point; every
  iteration brings the remaining amount of the current debtor or of the current creditor
  to zero and moves past that party. The plan has at most (debtors + creditors - 1) lines,
  and no line when that number is negative, that is when nobody owes or is owed anything.
  Run on a store, from a valid array of balances, the computation returns that same plan
  and leaves every object and every array that existed before as it was: the writes go to
  the copies.
\<close>

theorem settlement_terminates:
  "(\<exists>n. n \<le> length (debtors_of bs) + length (creditors_of bs)
        \<and> \<not> loop_cond ((loop_body ^^ n)
              \<lparr>debtors = debtors_of bs, creditors = creditors_of bs, i = 0, j = 0, lines = []\<rparr>)
        \<and> computeSettlements bs
            = lines ((loop_body ^^ n)
              \<lparr>debtors = debtors_of bs, creditors = creditors_of bs, i = 0, j = 0, lines = []\<rparr>))
   \<and> (loop_cond st \<longrightarrow>
        (i (loop_body st) = i st + 1 \<and> balance_ore (debtors (loop_body st) ! i st) = 0)
      \<or> (j (loop_body st) = j st + 1 \<and> balance_ore (creditors (loop_body st) ! j st) = 0))
   \<and> int (length (computeSettlements bs))
        \<le> max 0 (int (length (debtors_of bs)) + int (length (creditors_of bs)) - 1)
   \<and> (valid_array a h \<longrightarrow>
        (\<exists>h'. computeSettlements_heap a h
                 = Some (computeSettlements (map ((!) (objs h)) (arrs h ! a)), h')
             \<and> take (length (objs h)) (objs h') = objs h
             \<and> take (length (arrs h)) (arrs h') = arrs h))"
proof -
  let ?init = "\<lparr>debtors = debtors_of bs, creditors = creditors_of bs, i = 0, j = 0, lines = []\<rparr>"
  have a: "\<exists>n. n \<le> length (debtors_of bs) + length (creditors_of bs)
        \<and> \<not> loop_cond ((loop_body ^^ n) ?init)
        \<and> computeSettlements bs = lines ((loop_body ^^ n) ?init)"
    using settle_loop_iterations [of ?init] by (simp add: computeSettlements_def)
  have b: "loop_cond st \<longrightarrow>
        (i (loop_body st) = i st + 1 \<and> balance_ore (debtors (loop_body st) ! i st) = 0)
      \<or> (j (loop_body st) = j st + 1 \<and> balance_ore (creditors (loop_body st) ! j st) = 0)"
    using loop_body_progress by blast
  have c: "int (length (computeSettlements bs))
        \<le> max 0 (int (length (debtors_of bs)) + int (length (creditors_of bs)) - 1)"
  proof (cases "loop_cond ?init")
    case True
    then have "length (computeSettlements bs)
        \<le> length (debtors_of bs) + length (creditors_of bs) - 1"
      using settle_loop_count [of ?init] by (simp add: computeSettlements_def)
    then show ?thesis by linarith
  next
    case False
    then have "computeSettlements bs = []"
      by (simp add: computeSettlements_def settle_loop.simps [of ?init])
    then show ?thesis by simp
  qed
  have d: "valid_array a h \<longrightarrow>
        (\<exists>h'. computeSettlements_heap a h
                 = Some (computeSettlements (map ((!) (objs h)) (arrs h ! a)), h')
             \<and> take (length (objs h)) (objs h') = objs h
             \<and> take (length (arrs h)) (arrs h') = arrs h)"
    using heap_run by blast
  from a b c d show ?thesis by blast
qed

theorem settlement_terminates_witness:
  "valid_array 0
     \<lparr>objs = [\<lparr>b_user_id = (js ''X''), b_display_name = (js ''X''), balance_ore = 600\<rparr>,
              \<lparr>b_user_id = (js ''Y''), b_display_name = (js ''Y''), balance_ore = - 300\<rparr>,
              \<lparr>b_user_id = (js ''Z''), b_display_name = (js ''Z''), balance_ore = - 300\<rparr>],
      arrs = [[0, 1, 2]]\<rparr>
   \<and> (\<exists>h'. computeSettlements_heap 0
          \<lparr>objs = [\<lparr>b_user_id = (js ''X''), b_display_name = (js ''X''), balance_ore = 600\<rparr>,
                   \<lparr>b_user_id = (js ''Y''), b_display_name = (js ''Y''), balance_ore = - 300\<rparr>,
                   \<lparr>b_user_id = (js ''Z''), b_display_name = (js ''Z''), balance_ore = - 300\<rparr>],
           arrs = [[0, 1, 2]]\<rparr>
        = Some ([\<lparr>from_name = (js ''Y''), to_name = (js ''X''), line_amount_ore = 300\<rparr>,
                 \<lparr>from_name = (js ''Z''), to_name = (js ''X''), line_amount_ore = 300\<rparr>], h')
        \<and> take 3 (objs h')
            = [\<lparr>b_user_id = (js ''X''), b_display_name = (js ''X''), balance_ore = 600\<rparr>,
               \<lparr>b_user_id = (js ''Y''), b_display_name = (js ''Y''), balance_ore = - 300\<rparr>,
               \<lparr>b_user_id = (js ''Z''), b_display_name = (js ''Z''), balance_ore = - 300\<rparr>]
        \<and> take 1 (arrs h') = [[0, 1, 2]])
   \<and> loop_cond
        \<lparr>debtors = [\<lparr>b_user_id = (js ''Y''), b_display_name = (js ''Y''), balance_ore = 300\<rparr>,
                    \<lparr>b_user_id = (js ''Z''), b_display_name = (js ''Z''), balance_ore = 300\<rparr>],
         creditors = [\<lparr>b_user_id = (js ''X''), b_display_name = (js ''X''), balance_ore = 600\<rparr>],
         i = 0, j = 0, lines = []\<rparr>
   \<and> i (loop_body
        \<lparr>debtors = [\<lparr>b_user_id = (js ''Y''), b_display_name = (js ''Y''), balance_ore = 300\<rparr>,
                    \<lparr>b_user_id = (js ''Z''), b_display_name = (js ''Z''), balance_ore = 300\<rparr>],
         creditors = [\<lparr>b_user_id = (js ''X''), b_display_name = (js ''X''), balance_ore = 600\<rparr>],
         i = 0, j = 0, lines = []\<rparr>) = 1"
proof -
  let ?h = "\<lparr>objs = [\<lparr>b_user_id = (js ''X''), b_display_name = (js ''X''), balance_ore = 600\<rparr>,
              \<lparr>b_user_id = (js ''Y''), b_display_name = (js ''Y''), balance_ore = - 300\<rparr>,
              \<lparr>b_user_id = (js ''Z''), b_display_name = (js ''Z''), balance_ore = - 300\<rparr>],
      arrs = [[0, 1, 2]]\<rparr>"
  let ?st = "\<lparr>debtors = [\<lparr>b_user_id = (js ''Y''), b_display_name = (js ''Y''), balance_ore = 300\<rparr>,
                    \<lparr>b_user_id = (js ''Z''), b_display_name = (js ''Z''), balance_ore = 300\<rparr>],
         creditors = [\<lparr>b_user_id = (js ''X''), b_display_name = (js ''X''), balance_ore = 600\<rparr>],
         i = 0, j = 0, lines = []\<rparr>"
  have v: "valid_array 0 ?h" by (simp add: valid_array_def)
  have lc: "loop_cond ?st" by (simp add: loop_cond_def)
  have ev: "computeSettlements (map ((!) (objs ?h)) (arrs ?h ! 0))
      = [\<lparr>from_name = (js ''Y''), to_name = (js ''X''), line_amount_ore = 300\<rparr>,
         \<lparr>from_name = (js ''Z''), to_name = (js ''X''), line_amount_ore = 300\<rparr>]"
    by code_simp
  have sel: "objs ?h = [\<lparr>b_user_id = (js ''X''), b_display_name = (js ''X''), balance_ore = 600\<rparr>,
               \<lparr>b_user_id = (js ''Y''), b_display_name = (js ''Y''), balance_ore = - 300\<rparr>,
               \<lparr>b_user_id = (js ''Z''), b_display_name = (js ''Z''), balance_ore = - 300\<rparr>]"
    "arrs ?h = [[0, 1, 2]]"
    by simp_all
  have len: "length (objs ?h) = 3" "length (arrs ?h) = 1" by simp_all
  from settlement_terminates [of "[]" ?st 0 ?h] v obtain h' where
    r: "computeSettlements_heap 0 ?h
          = Some (computeSettlements (map ((!) (objs ?h)) (arrs ?h ! 0)), h')"
    and t1: "take (length (objs ?h)) (objs h') = objs ?h"
    and t2: "take (length (arrs ?h)) (arrs h') = arrs ?h"
    by blast
  have r': "computeSettlements_heap 0 ?h
        = Some ([\<lparr>from_name = (js ''Y''), to_name = (js ''X''), line_amount_ore = 300\<rparr>,
                 \<lparr>from_name = (js ''Z''), to_name = (js ''X''), line_amount_ore = 300\<rparr>], h')"
    using r by (simp only: ev)
  have t1': "take 3 (objs h')
            = [\<lparr>b_user_id = (js ''X''), b_display_name = (js ''X''), balance_ore = 600\<rparr>,
               \<lparr>b_user_id = (js ''Y''), b_display_name = (js ''Y''), balance_ore = - 300\<rparr>,
               \<lparr>b_user_id = (js ''Z''), b_display_name = (js ''Z''), balance_ore = - 300\<rparr>]"
    using t1 unfolding len by (simp only: sel)
  have t2': "take 1 (arrs h') = [[0, 1, 2]]"
    using t2 unfolding len by (simp only: sel)
  from r' t1' t2' have run: "\<exists>h'. computeSettlements_heap 0 ?h
        = Some ([\<lparr>from_name = (js ''Y''), to_name = (js ''X''), line_amount_ore = 300\<rparr>,
                 \<lparr>from_name = (js ''Z''), to_name = (js ''X''), line_amount_ore = 300\<rparr>], h')
        \<and> take 3 (objs h')
            = [\<lparr>b_user_id = (js ''X''), b_display_name = (js ''X''), balance_ore = 600\<rparr>,
               \<lparr>b_user_id = (js ''Y''), b_display_name = (js ''Y''), balance_ore = - 300\<rparr>,
               \<lparr>b_user_id = (js ''Z''), b_display_name = (js ''Z''), balance_ore = - 300\<rparr>]
        \<and> take 1 (arrs h') = [[0, 1, 2]]"
    by blast
  have step: "i (loop_body ?st) = 1"
    using settlement_terminates [of "[]" ?st 0 ?h] lc
    by (simp add: loop_body_def Let_def)
  from v run lc step show ?thesis by blast
qed

theorem settlement_bound_counterexample:
  "\<not> int (length (computeSettlements []))
       \<le> int (length (debtors_of [])) + int (length (creditors_of [])) - 1"
  by (simp add: computeSettlements_def debtors_of_def creditors_of_def settle_loop.simps loop_cond_def)

end
